theory Spec2Isabelle
  imports Main "HOL-Library.Word"
begin

section \<open>Values, errors and the HTTP layer\<close>

text \<open>
  The values that \<^verbatim>\<open>response.json()\<close> produces and that the tools return. A Python
  dict is an association list in insertion order, read with \<open>map_of\<close>; a float is kept
  as its binary64 bit pattern, since the program only ever copies it.
\<close>

datatype json =
    JNull
  | JBool bool
  | JInt int
  | JFloat "64 word"
  | JStr string
  | JArr "json list"
  | JObj "(string \<times> json) list"

type_synonym headers = "(string \<times> string) list"

record request =
  req_method :: string
  req_url :: string
  req_headers :: headers

record response =
  status_code :: int
  resp_text :: string
  resp_request :: request

text \<open>
  The exceptions the program can raise, one constructor per Python class:
  \<^verbatim>\<open>httpx.HTTPStatusError(message, request=..., response=...)\<close>, \<^verbatim>\<open>KeyError(key)\<close>,
  \<^verbatim>\<open>TypeError\<close> (subscripting or iterating a value that does not support it),
  \<^verbatim>\<open>httpx.RequestError\<close> (the request got no response, or could not be sent) and
  \<^verbatim>\<open>httpx.InvalidURL\<close> (the client refuses the URL string).
\<close>

datatype error =
    HTTPStatusError string request response
  | KeyError string
  | TypeError
  | RequestError string
  | InvalidURL string

text \<open>The class of an exception, which is what an \<^verbatim>\<open>except\<close> clause matches on.\<close>

fun error_kind :: "error \<Rightarrow> string" where
  "error_kind (HTTPStatusError m rq rs) = ''HTTPStatusError''"
| "error_kind (KeyError k) = ''KeyError''"
| "error_kind TypeError = ''TypeError''"
| "error_kind (RequestError m) = ''RequestError''"
| "error_kind (InvalidURL m) = ''InvalidURL''"

text \<open>
  What the HTTP client makes of the URL string it is given: it refuses the string and
  raises \<^verbatim>\<open>InvalidURL\<close>, or it cannot send such a URL and raises a \<^verbatim>\<open>RequestError\<close>
  (a URL without \<^verbatim>\<open>http\<close> scheme, for one), or it prepares the URL of the request,
  percent-encoded where the client does so.
\<close>

datatype url_result = Refused string | Unsendable string | Prepared string

text \<open>What the remote side does with one request: no response at all, or a status and a body.\<close>

datatype reply = Failed string | Answered int string

text \<open>
  The surroundings of the program: the configured base URL
  (\<^verbatim>\<open>os.getenv("WORDPRESS_URL")\<close>, which is \<^verbatim>\<open>None\<close> when unset), what the HTTP client
  makes of a URL string before anything is sent, the remote server, whose answer may
  depend on the requests it has already seen, the JSON parser behind
  \<^verbatim>\<open>response.json()\<close> (\<open>None\<close> when it raises \<^verbatim>\<open>ValueError\<close>), and the message
  that \<^verbatim>\<open>raise_for_status\<close> puts into its exception.
\<close>

record env =
  WORDPRESS_URL :: "string option"
  url_of :: "string \<Rightarrow> url_result"
  server :: "request list \<Rightarrow> request \<Rightarrow> reply"
  json_loads :: "string \<Rightarrow> json option"
  status_message :: "response \<Rightarrow> string"

definition USER_AGENT :: string where
  "USER_AGENT = ''wordpress-app/1.0''"

text \<open>
  \<^verbatim>\<open>client.get(url, headers=headers)\<close>: the client first turns the URL string into the
  URL of the request; when it raises there, nothing is sent. Otherwise one GET request
  for that URL is sent and logged. The log of requests sent so far is the state that every
  effectful function passes on.
\<close>

definition client_get ::
  "env \<Rightarrow> request list \<Rightarrow> string \<Rightarrow> headers \<Rightarrow> (error + response) \<times> request list" where
  "client_get E log u hs =
     (case url_of E u of
        Refused m \<Rightarrow> (Inl (InvalidURL m), log)
      | Unsendable m \<Rightarrow> (Inl (RequestError m), log)
      | Prepared w \<Rightarrow>
          (let rq = \<lparr>req_method = ''GET'', req_url = w, req_headers = hs\<rparr>
           in (case server E log rq of
                 Failed m \<Rightarrow> Inl (RequestError m)
               | Answered st body \<Rightarrow>
                   Inr \<lparr>status_code = st, resp_text = body, resp_request = rq\<rparr>,
               log @ [rq])))"

definition is_success :: "response \<Rightarrow> bool" where
  "is_success r \<longleftrightarrow> 200 \<le> status_code r \<and> status_code r \<le> 299"

text \<open>
  Modelled from the spec: \<^verbatim>\<open>httpx.Response.raise_for_status\<close> is library code that is
  not part of the sources; "HTTP status outside 2xx fails with an HTTPStatusError-class
  condition carrying the status and original request/response context".
\<close>

definition raise_for_status :: "env \<Rightarrow> response \<Rightarrow> error + unit" where
  "raise_for_status E r =
     (if is_success r then Inr ()
      else Inl (HTTPStatusError (status_message E r) (resp_request r) r))"

text \<open>\<^verbatim>\<open>fetch_post_response_data(url)\<close>, lines 21 to 41.\<close>

definition fetch_post_response_data ::
  "env \<Rightarrow> request list \<Rightarrow> string \<Rightarrow> (error + json) \<times> request list" where
  "fetch_post_response_data E log u =
     (let hs = [(''User-Agent'', USER_AGENT)];
          (got, log') = client_get E log u hs
      in case got of
           Inl e \<Rightarrow> (Inl e, log')
         | Inr r \<Rightarrow>
             (case raise_for_status E r of
                Inl e \<Rightarrow> (Inl e, log')
              | Inr _ \<Rightarrow>
                  (case json_loads E (resp_text r) of
                     Some v \<Rightarrow> (Inr v, log')
                   | None \<Rightarrow>
                       (Inl (HTTPStatusError
                              (''Invalid JSON response from '' @ u @ '': '' @ resp_text r)
                              (resp_request r) r),
                        log'))))"

section \<open>Shaping\<close>

text \<open>
  \<^verbatim>\<open>value[key]\<close> with a string key: a dict looks the key up and raises \<^verbatim>\<open>KeyError(key)\<close>
  when it is absent; a list, a string, a number, a boolean and \<^verbatim>\<open>None\<close> raise
  \<^verbatim>\<open>TypeError\<close>.
\<close>

fun getitem :: "json \<Rightarrow> string \<Rightarrow> error + json" where
  "getitem (JObj kvs) k = (case map_of kvs k of None \<Rightarrow> Inl (KeyError k) | Some v \<Rightarrow> Inr v)"
| "getitem v k = Inl TypeError"

text \<open>
  \<^verbatim>\<open>format_post_response_data(response)\<close>, lines 44 to 60. The dict display evaluates
  its values from top to bottom, so the first subscript that fails decides the exception.
\<close>

definition format_post_response_data :: "json \<Rightarrow> error + json" where
  "format_post_response_data response =
     (case getitem response ''id'' of Inl e \<Rightarrow> Inl e | Inr v_id \<Rightarrow>
     (case getitem response ''date'' of Inl e \<Rightarrow> Inl e | Inr v_date \<Rightarrow>
     (case getitem response ''link'' of Inl e \<Rightarrow> Inl e | Inr v_link \<Rightarrow>
     (case getitem response ''title'' of Inl e \<Rightarrow> Inl e | Inr t \<Rightarrow>
     (case getitem t ''rendered'' of Inl e \<Rightarrow> Inl e | Inr v_title \<Rightarrow>
     (case getitem response ''content'' of Inl e \<Rightarrow> Inl e | Inr c \<Rightarrow>
     (case getitem c ''rendered'' of Inl e \<Rightarrow> Inl e | Inr v_content \<Rightarrow>
     (case getitem response ''featured_media'' of Inl e \<Rightarrow> Inl e | Inr v_media \<Rightarrow>
        Inr (JObj [(''id'', v_id), (''date'', v_date), (''link'', v_link),
                   (''title'', v_title), (''content'', v_content),
                   (''featured_media'', v_media)])))))))))"

text \<open>The dict display of lines 124 to 129, applied to one element of the category list.\<close>

definition category_row :: "json \<Rightarrow> error + json" where
  "category_row category =
     (case getitem category ''id'' of Inl e \<Rightarrow> Inl e | Inr v_id \<Rightarrow>
     (case getitem category ''name'' of Inl e \<Rightarrow> Inl e | Inr v_name \<Rightarrow>
     (case getitem category ''count'' of Inl e \<Rightarrow> Inl e | Inr v_count \<Rightarrow>
     (case getitem category ''link'' of Inl e \<Rightarrow> Inl e | Inr v_link \<Rightarrow>
        Inr (JObj [(''id'', v_id), (''name'', v_name), (''count'', v_count),
                   (''link'', v_link)])))))"

text \<open>
  \<^verbatim>\<open>for x in value\<close>: a list yields its elements, a dict its keys, a string its
  characters as one-character strings; anything else raises \<^verbatim>\<open>TypeError\<close>.
\<close>

fun py_iter :: "json \<Rightarrow> error + json list" where
  "py_iter (JArr xs) = Inr xs"
| "py_iter (JObj kvs) = Inr (map (\<lambda>kv. JStr (fst kv)) kvs)"
| "py_iter (JStr s) = Inr (map (\<lambda>c. JStr [c]) s)"
| "py_iter v = Inl TypeError"

text \<open>
  \<^verbatim>\<open>[f(x) for x in xs]\<close>: the elements are shaped from left to right and the first
  exception leaves the comprehension.
\<close>

fun comprehension :: "(json \<Rightarrow> error + json) \<Rightarrow> json list \<Rightarrow> error + json list" where
  "comprehension f [] = Inr []"
| "comprehension f (x # xs) =
     (case f x of
        Inl e \<Rightarrow> Inl e
      | Inr y \<Rightarrow> (case comprehension f xs of Inl e \<Rightarrow> Inl e | Inr ys \<Rightarrow> Inr (y # ys)))"

definition shape_all :: "(json \<Rightarrow> error + json) \<Rightarrow> json \<Rightarrow> error + json" where
  "shape_all f response_data =
     (case py_iter response_data of
        Inl e \<Rightarrow> Inl e
      | Inr xs \<Rightarrow> (case comprehension f xs of Inl e \<Rightarrow> Inl e | Inr ys \<Rightarrow> Inr (JArr ys)))"

section \<open>The tools\<close>

text \<open>
  An f-string renders an integer in decimal, with a minus sign when negative, and renders
  the unset base URL as the text \<^verbatim>\<open>None\<close>.
\<close>

fun str_nat :: "nat \<Rightarrow> string" where
  "str_nat n =
     (if n < 10 then [''0123456789'' ! n]
      else str_nat (n div 10) @ [''0123456789'' ! (n mod 10)])"

declare str_nat.simps [simp del]

definition str_int :: "int \<Rightarrow> string" where
  "str_int i = (if i < 0 then CHR ''-'' # str_nat (nat (- i)) else str_nat (nat i))"

definition str_base :: "string option \<Rightarrow> string" where
  "str_base b = (case b of None \<Rightarrow> ''None'' | Some s \<Rightarrow> s)"

text \<open>An argument with a default: \<open>None\<close> when the caller leaves it out.\<close>

definition default_arg :: "'a \<Rightarrow> 'a option \<Rightarrow> 'a" where
  "default_arg d a = (case a of None \<Rightarrow> d | Some v \<Rightarrow> v)"

text \<open>\<^verbatim>\<open>fetch_wordpress_info\<close>, lines 63 to 78.\<close>

definition fetch_wordpress_info_tool ::
  "env \<Rightarrow> request list \<Rightarrow> (error + json) \<times> request list" where
  "fetch_wordpress_info_tool E log =
     (let u = str_base (WORDPRESS_URL E) @ ''/wp-json'';
          (got, log') = fetch_post_response_data E log u
      in case got of
           Inl e \<Rightarrow> (Inl e, log')
         | Inr response_data \<Rightarrow>
             ((case getitem response_data ''name'' of Inl e \<Rightarrow> Inl e | Inr v_name \<Rightarrow>
              (case getitem response_data ''description'' of Inl e \<Rightarrow> Inl e | Inr v_desc \<Rightarrow>
              (case getitem response_data ''url'' of Inl e \<Rightarrow> Inl e | Inr v_url \<Rightarrow>
                 Inr (JObj [(''name'', v_name), (''description'', v_desc),
                            (''url'', v_url)])))),
              log'))"

text \<open>\<^verbatim>\<open>fetch_posts(page=1, per_page=2)\<close>, lines 82 to 95.\<close>

definition posts_url :: "env \<Rightarrow> int \<Rightarrow> int \<Rightarrow> string" where
  "posts_url E page per_page =
     str_base (WORDPRESS_URL E) @ ''/wp-json/wp/v2/posts?page='' @ str_int page
       @ ''&per_page='' @ str_int per_page"

definition fetch_posts_tool ::
  "env \<Rightarrow> request list \<Rightarrow> int option \<Rightarrow> int option \<Rightarrow> (error + json) \<times> request list" where
  "fetch_posts_tool E log page_arg per_page_arg =
     (let page = default_arg 1 page_arg;
          per_page = default_arg 2 per_page_arg;
          u = posts_url E page per_page;
          (got, log') = fetch_post_response_data E log u
      in case got of
           Inl e \<Rightarrow> (Inl e, log')
         | Inr response_data \<Rightarrow> (shape_all format_post_response_data response_data, log'))"

text \<open>\<^verbatim>\<open>fetch_posts_by_category(category, page=1)\<close>, lines 98 to 111.\<close>

definition posts_by_category_url :: "env \<Rightarrow> string \<Rightarrow> int \<Rightarrow> string" where
  "posts_by_category_url E category page =
     str_base (WORDPRESS_URL E) @ ''/wp-json/wp/v2/posts?categories='' @ category
       @ ''&page='' @ str_int page"

definition fetch_posts_by_category_tool ::
  "env \<Rightarrow> request list \<Rightarrow> string \<Rightarrow> int option \<Rightarrow> (error + json) \<times> request list" where
  "fetch_posts_by_category_tool E log category page_arg =
     (let page = default_arg 1 page_arg;
          u = posts_by_category_url E category page;
          (got, log') = fetch_post_response_data E log u
      in case got of
           Inl e \<Rightarrow> (Inl e, log')
         | Inr response_data \<Rightarrow> (shape_all format_post_response_data response_data, log'))"

text \<open>\<^verbatim>\<open>fetch_categories()\<close>, lines 114 to 131.\<close>

definition categories_url :: "env \<Rightarrow> string" where
  "categories_url E = str_base (WORDPRESS_URL E) @ ''/wp-json/wp/v2/categories''"

definition fetch_categories_tool ::
  "env \<Rightarrow> request list \<Rightarrow> (error + json) \<times> request list" where
  "fetch_categories_tool E log =
     (let u = categories_url E;
          (got, log') = fetch_post_response_data E log u
      in case got of
           Inl e \<Rightarrow> (Inl e, log')
         | Inr response_data \<Rightarrow> (shape_all category_row response_data, log'))"

text \<open>\<^verbatim>\<open>fetch_post_by_id(post_id)\<close>, lines 135 to 147.\<close>

definition fetch_post_by_id_tool ::
  "env \<Rightarrow> request list \<Rightarrow> int \<Rightarrow> (error + json) \<times> request list" where
  "fetch_post_by_id_tool E log post_id =
     (let u = str_base (WORDPRESS_URL E) @ ''/wp-json/wp/v2/posts/'' @ str_int post_id;
          (got, log') = fetch_post_response_data E log u
      in case got of
           Inl e \<Rightarrow> (Inl e, log')
         | Inr response_data \<Rightarrow> (format_post_response_data response_data, log'))"

text \<open>\<^verbatim>\<open>fetch_pages(page=1, per_page=2)\<close>, lines 150 to 163.\<close>

definition pages_url :: "env \<Rightarrow> int \<Rightarrow> int \<Rightarrow> string" where
  "pages_url E page per_page =
     str_base (WORDPRESS_URL E) @ ''/wp-json/wp/v2/pages?page='' @ str_int page
       @ ''&per_page='' @ str_int per_page"

definition fetch_pages_tool ::
  "env \<Rightarrow> request list \<Rightarrow> int option \<Rightarrow> int option \<Rightarrow> (error + json) \<times> request list" where
  "fetch_pages_tool E log page_arg per_page_arg =
     (let page = default_arg 1 page_arg;
          per_page = default_arg 2 per_page_arg;
          u = pages_url E page per_page;
          (got, log') = fetch_post_response_data E log u
      in case got of
           Inl e \<Rightarrow> (Inl e, log')
         | Inr response_data \<Rightarrow> (shape_all format_post_response_data response_data, log'))"

text \<open>\<^verbatim>\<open>fetch_page_by_id(page_id)\<close>, lines 166 to 178.\<close>

definition fetch_page_by_id_tool ::
  "env \<Rightarrow> request list \<Rightarrow> int \<Rightarrow> (error + json) \<times> request list" where
  "fetch_page_by_id_tool E log page_id =
     (let u = str_base (WORDPRESS_URL E) @ ''/wp-json/wp/v2/pages/'' @ str_int page_id;
          (got, log') = fetch_post_response_data E log u
      in case got of
           Inl e \<Rightarrow> (Inl e, log')
         | Inr response_data \<Rightarrow> (format_post_response_data response_data, log'))"

section \<open>The same shaping over a store of objects\<close>

text \<open>
  Python passes references: \<^verbatim>\<open>response\<close> names an object that the caller still holds.
  Here objects live in a store, a list and a dict hold the addresses of their elements,
  and \<open>next_free\<close> is the first address that has not been handed out yet.
\<close>

type_synonym addr = nat

datatype pyobj =
    ONone
  | OBool bool
  | OInt int
  | OFloat "64 word"
  | OStr string
  | OList "addr list"
  | ODict "(string \<times> addr) list"

record heap =
  cells :: "addr \<Rightarrow> pyobj"
  next_free :: addr

text \<open>\<^verbatim>\<open>obj[key]\<close> reads the store and yields the reference stored under the key.\<close>

definition getitem_ref :: "heap \<Rightarrow> addr \<Rightarrow> string \<Rightarrow> error + addr" where
  "getitem_ref h a k =
     (case cells h a of
        ODict kvs \<Rightarrow> (case map_of kvs k of None \<Rightarrow> Inl (KeyError k) | Some b \<Rightarrow> Inr b)
      | _ \<Rightarrow> Inl TypeError)"

text \<open>A dict display builds a new dict object at the next free address.\<close>

definition new_dict :: "heap \<Rightarrow> (string \<times> addr) list \<Rightarrow> addr \<times> heap" where
  "new_dict h kvs =
     (next_free h,
      h\<lparr>cells := (cells h)(next_free h := ODict kvs), next_free := Suc (next_free h)\<rparr>)"

text \<open>
  \<^verbatim>\<open>format_post_response_data(response)\<close> on references: eight subscript reads, then
  one dict display; an exception leaves the store as it was.
\<close>

definition format_post_response_data_ref :: "heap \<Rightarrow> addr \<Rightarrow> (error + addr) \<times> heap" where
  "format_post_response_data_ref h response =
     (case getitem_ref h response ''id'' of Inl e \<Rightarrow> (Inl e, h) | Inr v_id \<Rightarrow>
     (case getitem_ref h response ''date'' of Inl e \<Rightarrow> (Inl e, h) | Inr v_date \<Rightarrow>
     (case getitem_ref h response ''link'' of Inl e \<Rightarrow> (Inl e, h) | Inr v_link \<Rightarrow>
     (case getitem_ref h response ''title'' of Inl e \<Rightarrow> (Inl e, h) | Inr t \<Rightarrow>
     (case getitem_ref h t ''rendered'' of Inl e \<Rightarrow> (Inl e, h) | Inr v_title \<Rightarrow>
     (case getitem_ref h response ''content'' of Inl e \<Rightarrow> (Inl e, h) | Inr c \<Rightarrow>
     (case getitem_ref h c ''rendered'' of Inl e \<Rightarrow> (Inl e, h) | Inr v_content \<Rightarrow>
     (case getitem_ref h response ''featured_media'' of Inl e \<Rightarrow> (Inl e, h) | Inr v_media \<Rightarrow>
        (case new_dict h [(''id'', v_id), (''date'', v_date), (''link'', v_link),
                          (''title'', v_title), (''content'', v_content),
                          (''featured_media'', v_media)] of
           (r, h') \<Rightarrow> (Inr r, h'))))))))))"

text \<open>
  The value that an address stands for, read off the store to a given depth (\<open>None\<close> when
  the depth does not suffice), the addresses an object holds, and the stores in which every
  object that exists refers to objects that exist.
\<close>

fun json_of :: "nat \<Rightarrow> heap \<Rightarrow> addr \<Rightarrow> json option" where
  "json_of 0 h a = None"
| "json_of (Suc n) h a =
     (case cells h a of
        ONone \<Rightarrow> Some JNull
      | OBool b \<Rightarrow> Some (JBool b)
      | OInt i \<Rightarrow> Some (JInt i)
      | OFloat w \<Rightarrow> Some (JFloat w)
      | OStr s \<Rightarrow> Some (JStr s)
      | OList xs \<Rightarrow> map_option JArr (those (map (json_of n h) xs))
      | ODict kvs \<Rightarrow>
          map_option JObj
            (those (map (\<lambda>kv. map_option (Pair (fst kv)) (json_of n h (snd kv))) kvs)))"

fun refs :: "pyobj \<Rightarrow> addr set" where
  "refs (OList xs) = set xs"
| "refs (ODict kvs) = snd ` set kvs"
| "refs v = {}"

definition closed :: "heap \<Rightarrow> bool" where
  "closed h \<longleftrightarrow> (\<forall>a < next_free h. \<forall>b \<in> refs (cells h a). b < next_free h)"

section \<open>Vocabulary of the properties\<close>

text \<open>The request that the fetcher sends for a URL, and the response built from an answer.\<close>

definition get_request :: "string \<Rightarrow> request" where
  "get_request u =
     \<lparr>req_method = ''GET'', req_url = u, req_headers = [(''User-Agent'', USER_AGENT)]\<rparr>"

definition response_of :: "string \<Rightarrow> int \<Rightarrow> string \<Rightarrow> response" where
  "response_of u st body = \<lparr>status_code = st, resp_text = body, resp_request = get_request u\<rparr>"

text \<open>The \<^verbatim>\<open>response\<close> attribute of an exception, where it has one.\<close>

fun error_response :: "error \<Rightarrow> response option" where
  "error_response (HTTPStatusError m rq rs) = Some rs"
| "error_response e = None"

text \<open>Following a key path such as \<^verbatim>\<open>title.rendered\<close> with the program's own subscript.\<close>

fun getpath :: "json \<Rightarrow> string list \<Rightarrow> error + json" where
  "getpath v [] = Inr v"
| "getpath v (k # ks) = (case getitem v k of Inl e \<Rightarrow> Inl e | Inr w \<Rightarrow> getpath w ks)"

definition has_path :: "json \<Rightarrow> string list \<Rightarrow> bool" where
  "has_path v p \<longleftrightarrow> \<not> isl (getpath v p)"

definition post_paths :: "string list list" where
  "post_paths = [[''id''], [''date''], [''link''], [''title'', ''rendered''],
                 [''content'', ''rendered''], [''featured_media'']]"

definition category_keys :: "string list" where
  "category_keys = [''id'', ''name'', ''count'', ''link'']"

definition is_dict :: "json \<Rightarrow> bool" where
  "is_dict v = (case v of JObj kvs \<Rightarrow> True | _ \<Rightarrow> False)"

text \<open>Equality of two dicts as Python's \<^verbatim>\<open>==\<close> sees it: the same keys with the same values,
  in whatever order they were inserted.\<close>

definition dict_eq :: "json \<Rightarrow> json \<Rightarrow> bool" where
  "dict_eq a b =
     (case (a, b) of
        (JObj x, JObj y) \<Rightarrow>
          set (map fst x) = set (map fst y) \<and> (\<forall>k \<in> set (map fst x). map_of x k = map_of y k)
      | _ \<Rightarrow> False)"

section \<open>A sample site\<close>

definition posts_body :: string where
  \<open>posts_body = ''[{"id":10,"date":"d0","link":"l0","title":{"rendered":"T0"},"content":{"rendered":"<p>c0</p>"},"featured_media":0},{"id":11,"date":"d1","link":"l1","title":{"rendered":"T1"},"content":{"rendered":"<p>c1</p>"},"featured_media":7}]''\<close>

definition post10 :: json where
  "post10 = JObj [(''id'', JInt 10), (''date'', JStr ''d0''), (''link'', JStr ''l0''),
                  (''title'', JObj [(''rendered'', JStr ''T0'')]),
                  (''content'', JObj [(''rendered'', JStr ''<p>c0</p>'')]),
                  (''featured_media'', JInt 0)]"

definition post11 :: json where
  "post11 = JObj [(''id'', JInt 11), (''date'', JStr ''d1''), (''link'', JStr ''l1''),
                  (''title'', JObj [(''rendered'', JStr ''T1'')]),
                  (''content'', JObj [(''rendered'', JStr ''<p>c1</p>'')]),
                  (''featured_media'', JInt 7)]"

definition categories_body :: string where
  \<open>categories_body = ''[{"id":1,"name":"News","count":5,"link":"https://x/cat/news"}]''\<close>

definition news :: json where
  "news = JObj [(''id'', JInt 1), (''name'', JStr ''News''), (''count'', JInt 5),
                (''link'', JStr ''https://x/cat/news'')]"

definition sample_loads :: "string \<Rightarrow> json option" where
  \<open>sample_loads body =
     (if body = posts_body then Some (JArr [post10, post11])
      else if body = categories_body then Some (JArr [news])
      else if body = ''[]'' then Some (JArr [])
      else if body = ''[{"id":1}]'' then Some (JArr [JObj [(''id'', JInt 1)]])
      else None)\<close>

text \<open>
  The sample server answers the first request for post 999 with 404 and would answer a
  second one with 200.
\<close>

definition sample_server :: "request list \<Rightarrow> request \<Rightarrow> reply" where
  \<open>sample_server log rq =
     (if req_url rq = ''https://example.org/wp-json/wp/v2/posts?page=1&per_page=2''
        then Answered 200 posts_body
      else if req_url rq = ''https://example.org/wp-json/wp/v2/categories''
        then Answered 200 categories_body
      else if req_url rq = ''https://example.org/wp-json''
        then Answered 200 ''<html>not json</html>''
      else if req_url rq = ''https://example.org/wp-json/wp/v2/posts/999''
        then (if log = [] then Answered 404 ''gone'' else Answered 200 ''[]'')
      else Failed ''no route'')\<close>

text \<open>
  The sample client, as the HTTP client does on the strings used here: a URL with a
  tab in it is refused, a URL that does not start with \<^verbatim>\<open>http\<close> cannot be sent, a
  space goes out as \<^verbatim>\<open>%20\<close>, every other character goes out as it is.
\<close>

definition sample_url_of :: "string \<Rightarrow> url_result" where
  "sample_url_of u =
     (if CHR 0x09 \<in> set u then Refused ''Invalid non-printable ASCII character in URL''
      else if take 4 u \<noteq> ''http'' then Unsendable ''Request URL is missing a protocol''
      else Prepared (concat (map (\<lambda>c. if c = CHR '' '' then ''%20'' else [c]) u)))"

definition sample_message :: "response \<Rightarrow> string" where
  "sample_message r = ''status '' @ str_int (status_code r)"

definition sample_env :: env where
  "sample_env = \<lparr>WORDPRESS_URL = Some ''https://example.org'', url_of = sample_url_of,
                  server = sample_server, json_loads = sample_loads,
                  status_message = sample_message\<rparr>"

text \<open>The sample site with a base URL that lacks the scheme.\<close>

definition bare_env :: env where
  "bare_env = sample_env\<lparr>WORDPRESS_URL := Some ''example.org''\<rparr>"

text \<open>A site whose every list holds one element with nothing but an id.\<close>

definition stub_env :: env where
  \<open>stub_env = \<lparr>WORDPRESS_URL = Some ''https://example.org'', url_of = sample_url_of,
                server = (\<lambda>log rq. Answered 200 ''[{"id":1}]''),
                json_loads = sample_loads, status_message = sample_message\<rparr>\<close>

text \<open>A store that holds one post, at address 8, and the objects it refers to.\<close>

definition sample_objects :: "pyobj list" where
  "sample_objects =
     [OInt 10, OStr ''d0'', OStr ''l0'', OStr ''T0'', ODict [(''rendered'', 3)],
      OStr ''<p>c0</p>'', ODict [(''rendered'', 5)], OInt 0,
      ODict [(''id'', 0), (''date'', 1), (''link'', 2), (''title'', 4), (''content'', 6),
             (''featured_media'', 7)]]"

definition sample_heap :: heap where
  "sample_heap =
     \<lparr>cells = (\<lambda>a. if a < length sample_objects then sample_objects ! a else ONone),
      next_free = length sample_objects\<rparr>"

section \<open>Auxiliary facts\<close>

lemma fetch_cases:
  "fetch_post_response_data E log u =
     (case url_of E u of
        Refused m \<Rightarrow> (Inl (InvalidURL m), log)
      | Unsendable m \<Rightarrow> (Inl (RequestError m), log)
      | Prepared w \<Rightarrow>
          (case server E log (get_request w) of
             Failed m \<Rightarrow> (Inl (RequestError m), log @ [get_request w])
           | Answered st body \<Rightarrow>
               (if 200 \<le> st \<and> st \<le> 299 then
                  (case json_loads E body of
                     Some v \<Rightarrow> (Inr v, log @ [get_request w])
                   | None \<Rightarrow>
                       (Inl (HTTPStatusError
                              (''Invalid JSON response from '' @ u @ '': '' @ body)
                              (get_request w) (response_of w st body)),
                        log @ [get_request w]))
                else (Inl (HTTPStatusError (status_message E (response_of w st body))
                             (get_request w) (response_of w st body)),
                      log @ [get_request w]))))"
proof (cases "url_of E u")
  case (Refused m)
  then show ?thesis
    by (simp add: fetch_post_response_data_def client_get_def)
next
  case (Unsendable m)
  then show ?thesis
    by (simp add: fetch_post_response_data_def client_get_def)
next
  case (Prepared w)
  then show ?thesis
    by (simp add: fetch_post_response_data_def client_get_def raise_for_status_def
          is_success_def get_request_def response_of_def Let_def
          split: reply.splits option.splits)
qed

text \<open>The sample client leaves the URLs of the sample site as they are.\<close>

lemma sample_urls:
  "url_of sample_env ''https://example.org/wp-json'' = Prepared ''https://example.org/wp-json''"
  "url_of sample_env ''https://example.org/wp-json/wp/v2/posts/999''
     = Prepared ''https://example.org/wp-json/wp/v2/posts/999''"
  "url_of sample_env ''https://example.org/wp-json/wp/v2/posts?page=1&per_page=2''
     = Prepared ''https://example.org/wp-json/wp/v2/posts?page=1&per_page=2''"
  "url_of sample_env ''https://example.org/wp-json/wp/v2/categories''
     = Prepared ''https://example.org/wp-json/wp/v2/categories''"
  by (simp_all add: sample_env_def sample_url_of_def)

section \<open>The fetcher\<close>

text \<open>
  Claim C4. When the server answers the request, sent for the URL the client made of the
  given string, with a status outside 200..299, the fetch raises \<^verbatim>\<open>HTTPStatusError\<close> with the message of \<^verbatim>\<open>raise_for_status\<close>, the request
  that was sent and the response that came back, whose status code is the one the server
  gave; it returns no value, and it has sent exactly one request, whatever the server would
  have answered to a second one.
\<close>
theorem fetch_non_2xx_status_error:
  assumes "url_of E u = Prepared w"
    and "server E log (get_request w) = Answered st body"
    and "st < 200 \<or> 299 < st"
  shows "fetch_post_response_data E log u =
           (Inl (HTTPStatusError (status_message E (response_of w st body))
                   (get_request w) (response_of w st body)),
            log @ [get_request w])
         \<and> status_code (response_of w st body) = st
         \<and> resp_request (response_of w st body) = get_request w
         \<and> (\<forall>v. fst (fetch_post_response_data E log u) \<noteq> Inr v)"
  using assms by (auto simp add: fetch_cases response_of_def)

theorem fetch_non_2xx_status_error_witness:
  "server sample_env [] (get_request ''https://example.org/wp-json/wp/v2/posts/999'') = Answered 404 ''gone''
   \<and> server sample_env [get_request ''https://example.org/wp-json/wp/v2/posts/999'']
        (get_request ''https://example.org/wp-json/wp/v2/posts/999'') = Answered 200 ''[]''
   \<and> fetch_post_response_data sample_env [] ''https://example.org/wp-json/wp/v2/posts/999'' =
       (Inl (HTTPStatusError ''status 404''
               (get_request ''https://example.org/wp-json/wp/v2/posts/999'')
               (response_of ''https://example.org/wp-json/wp/v2/posts/999'' 404 ''gone'')),
        [get_request ''https://example.org/wp-json/wp/v2/posts/999''])"
proof -
  have a: "server sample_env [] (get_request ''https://example.org/wp-json/wp/v2/posts/999'') = Answered 404 ''gone''"
    by (simp add: sample_env_def sample_server_def get_request_def)
  have b: "server sample_env [get_request ''https://example.org/wp-json/wp/v2/posts/999'']
        (get_request ''https://example.org/wp-json/wp/v2/posts/999'') = Answered 200 ''[]''"
    by (simp add: sample_env_def sample_server_def get_request_def)
  have m: "status_message sample_env (response_of ''https://example.org/wp-json/wp/v2/posts/999'' 404 ''gone'') = ''status 404''"
    by (simp add: sample_env_def sample_message_def response_of_def str_int_def str_nat.simps)
  show ?thesis
    using a b m fetch_non_2xx_status_error [OF sample_urls(2) a] by simp
qed

text \<open>
  Claim C1, as stated, asks for two error kinds. On the sample site the front page answers
  200 with a body that is not JSON and post 999 answers 404: both fetches raise an
  exception of the one class \<^verbatim>\<open>HTTPStatusError\<close>.
\<close>
theorem invalid_json_same_kind_as_status_counterexample:
  "fst (fetch_post_response_data sample_env [] ''https://example.org/wp-json'') =
     Inl (HTTPStatusError
            ''Invalid JSON response from https://example.org/wp-json: <html>not json</html>''
            (get_request ''https://example.org/wp-json'')
            (response_of ''https://example.org/wp-json'' 200 ''<html>not json</html>''))
   \<and> fst (fetch_post_response_data sample_env [] ''https://example.org/wp-json/wp/v2/posts/999'') =
     Inl (HTTPStatusError ''status 404''
            (get_request ''https://example.org/wp-json/wp/v2/posts/999'')
            (response_of ''https://example.org/wp-json/wp/v2/posts/999'' 404 ''gone''))
   \<and> error_kind (HTTPStatusError
            ''Invalid JSON response from https://example.org/wp-json: <html>not json</html>''
            (get_request ''https://example.org/wp-json'')
            (response_of ''https://example.org/wp-json'' 200 ''<html>not json</html>''))
     = error_kind (HTTPStatusError ''status 404''
            (get_request ''https://example.org/wp-json/wp/v2/posts/999'')
            (response_of ''https://example.org/wp-json/wp/v2/posts/999'' 404 ''gone''))"
  by (simp add: fetch_cases sample_urls)
    (simp add: sample_env_def sample_server_def sample_loads_def sample_message_def
        get_request_def response_of_def str_int_def str_nat.simps posts_body_def
        categories_body_def)

text \<open>
  Claim C1, amended. When the server answers with a status in 200..299 and a body that the
  JSON parser rejects, the fetch raises \<^verbatim>\<open>HTTPStatusError\<close> whose message is
  \<^verbatim>\<open>Invalid JSON response from\<close>, the URL string as it was given, a colon and the raw
  body text, with the
  request and the response attached; its class is the same as that of the exception raised
  for any status outside 200..299.
\<close>
theorem fetch_invalid_json_error:
  assumes "url_of E u = Prepared w"
    and "server E log (get_request w) = Answered st body"
    and "200 \<le> st" and "st \<le> 299"
    and "json_loads E body = None"
    and "url_of E' u' = Prepared w'"
    and "server E' log' (get_request w') = Answered st' body'"
    and "st' < 200 \<or> 299 < st'"
  shows "fetch_post_response_data E log u =
           (Inl (HTTPStatusError (''Invalid JSON response from '' @ u @ '': '' @ body)
                   (get_request w) (response_of w st body)),
            log @ [get_request w])
         \<and> (\<exists>e'. fst (fetch_post_response_data E' log' u') = Inl e'
               \<and> error_kind e' =
                   error_kind (HTTPStatusError (''Invalid JSON response from '' @ u @ '': '' @ body)
                                 (get_request w) (response_of w st body)))"
  using assms by (auto simp add: fetch_cases)

theorem fetch_invalid_json_error_witness:
  "fetch_post_response_data sample_env [] ''https://example.org/wp-json'' =
     (Inl (HTTPStatusError
            ''Invalid JSON response from https://example.org/wp-json: <html>not json</html>''
            (get_request ''https://example.org/wp-json'')
            (response_of ''https://example.org/wp-json'' 200 ''<html>not json</html>'')),
      [get_request ''https://example.org/wp-json''])
   \<and> (\<exists>e'. fst (fetch_post_response_data sample_env [] ''https://example.org/wp-json/wp/v2/posts/999'') = Inl e'
         \<and> error_kind e' = ''HTTPStatusError'')"
proof -
  have a: "server sample_env [] (get_request ''https://example.org/wp-json'') =
             Answered 200 ''<html>not json</html>''"
    by (simp add: sample_env_def sample_server_def get_request_def)
  have b: "json_loads sample_env ''<html>not json</html>'' = None"
    by (simp add: sample_env_def sample_loads_def posts_body_def categories_body_def)
  have c: "server sample_env [] (get_request ''https://example.org/wp-json/wp/v2/posts/999'') =
             Answered 404 ''gone''"
    by (simp add: sample_env_def sample_server_def get_request_def)
  show ?thesis
    using fetch_invalid_json_error [OF sample_urls(1) a _ _ b sample_urls(2) c] by simp
qed

text \<open>
  Claim C9. Both failures are of class \<^verbatim>\<open>HTTPStatusError\<close> and both carry the response
  they came from: after a body that is not JSON that response has a status in 200..299,
  after a bad status it has not, so the attached status code tells the two apart.
\<close>
theorem invalid_json_error_carries_2xx_response:
  assumes "url_of E u = Prepared w"
    and "server E log (get_request w) = Answered st body"
    and "200 \<le> st" and "st \<le> 299"
    and "json_loads E body = None"
    and "url_of E' u' = Prepared w'"
    and "server E' log' (get_request w') = Answered st' body'"
    and "st' < 200 \<or> 299 < st'"
  shows "\<exists>e e'. fst (fetch_post_response_data E log u) = Inl e
           \<and> fst (fetch_post_response_data E' log' u') = Inl e'
           \<and> error_kind e = ''HTTPStatusError'' \<and> error_kind e' = ''HTTPStatusError''
           \<and> error_response e = Some (response_of w st body)
           \<and> error_response e' = Some (response_of w' st' body')
           \<and> is_success (response_of w st body)
           \<and> \<not> is_success (response_of w' st' body')"
  using assms by (auto simp add: fetch_cases is_success_def response_of_def)

theorem invalid_json_error_carries_2xx_response_witness:
  "\<exists>e e'. fst (fetch_post_response_data sample_env [] ''https://example.org/wp-json'') = Inl e
       \<and> fst (fetch_post_response_data sample_env [] ''https://example.org/wp-json/wp/v2/posts/999'') = Inl e'
       \<and> error_kind e = error_kind e'
       \<and> map_option status_code (error_response e) = Some 200
       \<and> map_option status_code (error_response e') = Some 404"
proof -
  have a: "server sample_env [] (get_request ''https://example.org/wp-json'') =
             Answered 200 ''<html>not json</html>''"
    by (simp add: sample_env_def sample_server_def get_request_def)
  have b: "json_loads sample_env ''<html>not json</html>'' = None"
    by (simp add: sample_env_def sample_loads_def posts_body_def categories_body_def)
  have c: "server sample_env [] (get_request ''https://example.org/wp-json/wp/v2/posts/999'') =
             Answered 404 ''gone''"
    by (simp add: sample_env_def sample_server_def get_request_def)
  from invalid_json_error_carries_2xx_response [OF sample_urls(1) a _ _ b sample_urls(2) c]
  obtain e e' where
    "fst (fetch_post_response_data sample_env [] ''https://example.org/wp-json'') = Inl e"
    "fst (fetch_post_response_data sample_env [] ''https://example.org/wp-json/wp/v2/posts/999'') = Inl e'"
    "error_kind e = ''HTTPStatusError''" "error_kind e' = ''HTTPStatusError''"
    "error_response e = Some (response_of ''https://example.org/wp-json'' 200 ''<html>not json</html>'')"
    "error_response e' = Some (response_of ''https://example.org/wp-json/wp/v2/posts/999'' 404 ''gone'')"
    by auto
  then show ?thesis
    by (simp add: response_of_def)
qed

section \<open>The shaper\<close>

text \<open>
  Claim C2. For a value in which the key paths \<^verbatim>\<open>id\<close>, \<^verbatim>\<open>date\<close>, \<^verbatim>\<open>link\<close>,
  \<^verbatim>\<open>title.rendered\<close>, \<^verbatim>\<open>content.rendered\<close> and \<^verbatim>\<open>featured_media\<close> resolve, the result
  is the dict with exactly the six keys \<^verbatim>\<open>id\<close>, \<^verbatim>\<open>date\<close>, \<^verbatim>\<open>link\<close>, \<^verbatim>\<open>title\<close>,
  \<^verbatim>\<open>content\<close>, \<^verbatim>\<open>featured_media\<close>, each holding the value found under its path,
  unchanged.
\<close>
theorem format_post_six_fields:
  assumes "getpath response [''id''] = Inr v_id"
    and "getpath response [''date''] = Inr v_date"
    and "getpath response [''link''] = Inr v_link"
    and "getpath response [''title'', ''rendered''] = Inr v_title"
    and "getpath response [''content'', ''rendered''] = Inr v_content"
    and "getpath response [''featured_media''] = Inr v_media"
  shows "format_post_response_data response =
           Inr (JObj [(''id'', v_id), (''date'', v_date), (''link'', v_link),
                      (''title'', v_title), (''content'', v_content),
                      (''featured_media'', v_media)])"
  using assms by (auto simp add: format_post_response_data_def split: sum.splits)

theorem format_post_six_fields_witness:
  "format_post_response_data post10 =
     Inr (JObj [(''id'', JInt 10), (''date'', JStr ''d0''), (''link'', JStr ''l0''),
                (''title'', JStr ''T0''), (''content'', JStr ''<p>c0</p>''),
                (''featured_media'', JInt 0)])"
  using format_post_six_fields [of post10 "JInt 10" "JStr ''d0''" "JStr ''l0''" "JStr ''T0''"
          "JStr ''<p>c0</p>''" "JInt 0"]
  by (simp add: post10_def)

text \<open>
  Claim C3, as stated, promises a failure that names the missing key for every object
  that misses one. An object whose \<^verbatim>\<open>title\<close> is a plain string and that has neither
  \<^verbatim>\<open>content\<close> nor \<^verbatim>\<open>featured_media\<close> fails with \<^verbatim>\<open>TypeError\<close>, which names no key.
\<close>
theorem missing_key_type_error_counterexample:
  "map_of [(''id'', JInt 1), (''date'', JStr ''d''), (''link'', JStr ''l''),
           (''title'', JStr ''Hello'')] ''featured_media'' = None
   \<and> format_post_response_data
        (JObj [(''id'', JInt 1), (''date'', JStr ''d''), (''link'', JStr ''l''),
               (''title'', JStr ''Hello'')]) = Inl TypeError
   \<and> error_kind TypeError \<noteq> ''KeyError''"
  by (simp add: format_post_response_data_def)

text \<open>
  Claim C3, amended. A dict in which one of the six key paths of a post does not resolve
  is never shaped: the call raises \<^verbatim>\<open>KeyError\<close> naming a top-level key that is absent,
  or \<^verbatim>\<open>KeyError('rendered')\<close> when \<^verbatim>\<open>title\<close> or \<^verbatim>\<open>content\<close> is a dict without that
  key, or \<^verbatim>\<open>TypeError\<close> when \<^verbatim>\<open>title\<close> or \<^verbatim>\<open>content\<close> is present and is not a dict.
  A category dict that misses one of \<^verbatim>\<open>id\<close>, \<^verbatim>\<open>name\<close>, \<^verbatim>\<open>count\<close>, \<^verbatim>\<open>link\<close> raises
  \<^verbatim>\<open>KeyError\<close> naming an absent key. No object is returned in either case.
\<close>
theorem missing_key_fails:
  assumes "\<exists>p \<in> set post_paths. \<not> has_path (JObj kvs) p"
    and "\<exists>k \<in> set category_keys. map_of ckvs k = None"
  shows "((\<exists>k \<in> {''id'', ''date'', ''link'', ''title'', ''content'', ''featured_media''}.
             map_of kvs k = None \<and> format_post_response_data (JObj kvs) = Inl (KeyError k))
          \<or> (\<exists>k \<in> {''title'', ''content''}. \<exists>sub.
                map_of kvs k = Some (JObj sub) \<and> map_of sub ''rendered'' = None
                \<and> format_post_response_data (JObj kvs) = Inl (KeyError ''rendered''))
          \<or> (\<exists>k \<in> {''title'', ''content''}. \<exists>v.
                map_of kvs k = Some v \<and> \<not> is_dict v
                \<and> format_post_response_data (JObj kvs) = Inl TypeError))
         \<and> (\<exists>k \<in> set category_keys.
               map_of ckvs k = None \<and> category_row (JObj ckvs) = Inl (KeyError k))"
proof
  show "\<exists>k \<in> set category_keys.
          map_of ckvs k = None \<and> category_row (JObj ckvs) = Inl (KeyError k)"
    using assms(2)
    by (auto simp add: category_keys_def category_row_def split: option.splits)
next
  show "(\<exists>k \<in> {''id'', ''date'', ''link'', ''title'', ''content'', ''featured_media''}.
             map_of kvs k = None \<and> format_post_response_data (JObj kvs) = Inl (KeyError k))
          \<or> (\<exists>k \<in> {''title'', ''content''}. \<exists>sub.
                map_of kvs k = Some (JObj sub) \<and> map_of sub ''rendered'' = None
                \<and> format_post_response_data (JObj kvs) = Inl (KeyError ''rendered''))
          \<or> (\<exists>k \<in> {''title'', ''content''}. \<exists>v.
                map_of kvs k = Some v \<and> \<not> is_dict v
                \<and> format_post_response_data (JObj kvs) = Inl TypeError)"
    using assms(1)
    by (auto simp add: post_paths_def has_path_def format_post_response_data_def is_dict_def
          split: option.splits sum.splits json.splits)
qed

theorem missing_key_fails_witness:
  "(\<exists>p \<in> set post_paths. \<not> has_path (JObj [(''id'', JInt 1)]) p)
   \<and> (\<exists>k \<in> set category_keys. map_of [(''id'', JInt 1)] k = None)
   \<and> ((\<exists>k \<in> {''id'', ''date'', ''link'', ''title'', ''content'', ''featured_media''}.
             map_of [(''id'', JInt 1)] k = None
             \<and> format_post_response_data (JObj [(''id'', JInt 1)]) = Inl (KeyError k))
          \<or> (\<exists>k \<in> {''title'', ''content''}. \<exists>sub.
                map_of [(''id'', JInt 1)] k = Some (JObj sub) \<and> map_of sub ''rendered'' = None
                \<and> format_post_response_data (JObj [(''id'', JInt 1)]) = Inl (KeyError ''rendered''))
          \<or> (\<exists>k \<in> {''title'', ''content''}. \<exists>v.
                map_of [(''id'', JInt 1)] k = Some v \<and> \<not> is_dict v
                \<and> format_post_response_data (JObj [(''id'', JInt 1)]) = Inl TypeError))
   \<and> (\<exists>k \<in> set category_keys.
         map_of [(''id'', JInt 1)] k = None
         \<and> category_row (JObj [(''id'', JInt 1)]) = Inl (KeyError k))"
proof -
  have a: "\<exists>p \<in> set post_paths. \<not> has_path (JObj [(''id'', JInt 1)]) p"
    by (simp add: post_paths_def has_path_def)
  have b: "\<exists>k \<in> set category_keys. map_of [(''id'', JInt 1)] k = None"
    by (simp add: category_keys_def)
  show ?thesis
    using a b missing_key_fails [OF a b] by blast
qed

lemma comprehension_fails:
  "x \<in> set xs \<Longrightarrow> f x = Inl e \<Longrightarrow> \<exists>e'. comprehension f xs = Inl e'"
  by (induction xs) (auto split: sum.splits)

lemma comprehension_succeeds:
  "(\<forall>x \<in> set xs. \<not> isl (f x)) \<Longrightarrow>
     \<exists>ys. comprehension f xs = Inr ys \<and> length ys = length xs
          \<and> (\<forall>i < length xs. f (xs ! i) = Inr (ys ! i))"
proof (induction xs)
  case Nil
  then show ?case by simp
next
  case (Cons x xs)
  then obtain ys where ys: "comprehension f xs = Inr ys" "length ys = length xs"
    "\<forall>i < length xs. f (xs ! i) = Inr (ys ! i)"
    by auto
  from Cons.prems obtain y where y: "f x = Inr y"
    by (cases "f x") auto
  have "\<forall>i < length (x # xs). f ((x # xs) ! i) = Inr ((y # ys) ! i)"
    using ys(3) y by (auto simp add: nth_Cons split: nat.splits)
  then show ?case
    using ys y by simp
qed

lemma shape_all_list_fails:
  "x \<in> set items \<Longrightarrow> f x = Inl e \<Longrightarrow> \<exists>e'. shape_all f (JArr items) = Inl e'"
  using comprehension_fails [of x items f e] by (auto simp add: shape_all_def)

section \<open>The list tools\<close>

text \<open>
  Claim C5. When the list that a list endpoint delivered holds an element that does not
  shape, \<^verbatim>\<open>fetch_posts\<close>, \<^verbatim>\<open>fetch_posts_by_category\<close>, \<^verbatim>\<open>fetch_pages\<close> and
  \<^verbatim>\<open>fetch_categories\<close> end in an exception: no list is returned, not even of the
  elements that did shape.
\<close>
theorem list_tools_fail_fast:
  assumes "x \<in> set items"
    and "format_post_response_data x = Inl e"
    and "c \<in> set cats"
    and "category_row c = Inl ec"
  shows "(fst (fetch_post_response_data E log
                (posts_url E (default_arg 1 page_arg) (default_arg 2 per_page_arg)))
            = Inr (JArr items)
          \<longrightarrow> (\<exists>e'. fst (fetch_posts_tool E log page_arg per_page_arg) = Inl e'))
       \<and> (fst (fetch_post_response_data E log
                (posts_by_category_url E category (default_arg 1 page_arg)))
            = Inr (JArr items)
          \<longrightarrow> (\<exists>e'. fst (fetch_posts_by_category_tool E log category page_arg) = Inl e'))
       \<and> (fst (fetch_post_response_data E log
                (pages_url E (default_arg 1 page_arg) (default_arg 2 per_page_arg)))
            = Inr (JArr items)
          \<longrightarrow> (\<exists>e'. fst (fetch_pages_tool E log page_arg per_page_arg) = Inl e'))
       \<and> (fst (fetch_post_response_data E log (categories_url E)) = Inr (JArr cats)
          \<longrightarrow> (\<exists>e'. fst (fetch_categories_tool E log) = Inl e'))"
  using shape_all_list_fails [of x items format_post_response_data e]
    shape_all_list_fails [of c cats category_row ec] assms
  by (auto simp add: fetch_posts_tool_def fetch_posts_by_category_tool_def fetch_pages_tool_def
        fetch_categories_tool_def Let_def split: prod.splits sum.splits)

lemma stub_fetch:
  "url_of stub_env u = Prepared w \<Longrightarrow>
     fst (fetch_post_response_data stub_env log u) = Inr (JArr [JObj [(''id'', JInt 1)]])"
  by (simp add: fetch_cases)
    (simp add: stub_env_def sample_loads_def posts_body_def categories_body_def)

lemma stub_urls:
  "url_of stub_env (posts_url stub_env (default_arg 1 None) (default_arg 2 None))
     = Prepared ''https://example.org/wp-json/wp/v2/posts?page=1&per_page=2''"
  "url_of stub_env (posts_by_category_url stub_env ''7'' (default_arg 1 None))
     = Prepared ''https://example.org/wp-json/wp/v2/posts?categories=7&page=1''"
  "url_of stub_env (pages_url stub_env (default_arg 1 None) (default_arg 2 None))
     = Prepared ''https://example.org/wp-json/wp/v2/pages?page=1&per_page=2''"
  "url_of stub_env (categories_url stub_env)
     = Prepared ''https://example.org/wp-json/wp/v2/categories''"
  by (simp_all add: posts_url_def posts_by_category_url_def pages_url_def categories_url_def
        default_arg_def str_base_def stub_env_def sample_url_of_def str_int_def str_nat.simps)

theorem list_tools_fail_fast_witness:
  "JObj [(''id'', JInt 1)] \<in> set [JObj [(''id'', JInt 1)]]
   \<and> format_post_response_data (JObj [(''id'', JInt 1)]) = Inl (KeyError ''date'')
   \<and> category_row (JObj [(''id'', JInt 1)]) = Inl (KeyError ''name'')
   \<and> fst (fetch_post_response_data stub_env []
            (posts_url stub_env (default_arg 1 None) (default_arg 2 None)))
       = Inr (JArr [JObj [(''id'', JInt 1)]])
   \<and> fst (fetch_post_response_data stub_env []
            (posts_by_category_url stub_env ''7'' (default_arg 1 None)))
       = Inr (JArr [JObj [(''id'', JInt 1)]])
   \<and> fst (fetch_post_response_data stub_env []
            (pages_url stub_env (default_arg 1 None) (default_arg 2 None)))
       = Inr (JArr [JObj [(''id'', JInt 1)]])
   \<and> fst (fetch_post_response_data stub_env [] (categories_url stub_env))
       = Inr (JArr [JObj [(''id'', JInt 1)]])
   \<and> (\<exists>e'. fst (fetch_posts_tool stub_env [] None None) = Inl e')
   \<and> (\<exists>e'. fst (fetch_posts_by_category_tool stub_env [] ''7'' None) = Inl e')
   \<and> (\<exists>e'. fst (fetch_pages_tool stub_env [] None None) = Inl e')
   \<and> (\<exists>e'. fst (fetch_categories_tool stub_env []) = Inl e')"
proof -
  have a: "JObj [(''id'', JInt 1)] \<in> set [JObj [(''id'', JInt 1)]]"
    by simp
  have b: "format_post_response_data (JObj [(''id'', JInt 1)]) = Inl (KeyError ''date'')"
    by (simp add: format_post_response_data_def)
  have c: "category_row (JObj [(''id'', JInt 1)]) = Inl (KeyError ''name'')"
    by (simp add: category_row_def)
  show ?thesis
    using a b c stub_urls [THEN stub_fetch]
      list_tools_fail_fast [OF a b a c, of stub_env "[]" None None "''7''"]
    by simp
qed

section \<open>Requests and results of the tools\<close>

lemma fetch_log:
  "url_of E u = Prepared w \<Longrightarrow> snd (fetch_post_response_data E log u) = log @ [get_request w]"
  by (simp add: fetch_cases split: reply.splits option.splits)

lemma fetch_refused:
  "url_of E u = Refused m \<Longrightarrow> fetch_post_response_data E log u = (Inl (InvalidURL m), log)"
  "url_of E u = Unsendable m \<Longrightarrow> fetch_post_response_data E log u = (Inl (RequestError m), log)"
  by (simp_all add: fetch_cases)

lemma format_post_valid:
  assumes "\<forall>p \<in> set post_paths. has_path x p"
  shows "\<exists>y. format_post_response_data x = Inr y
           \<and> getpath y [''id''] = getpath x [''id'']
           \<and> getpath y [''title''] = getpath x [''title'', ''rendered'']
           \<and> getpath y [''content''] = getpath x [''content'', ''rendered'']"
  using assms
  by (auto simp add: post_paths_def has_path_def format_post_response_data_def
        split: sum.splits)

text \<open>
  Claim C6. With a configured base URL, \<^verbatim>\<open>fetch_posts\<close> hands the client the base
  followed by \<^verbatim>\<open>/wp-json/wp/v2/posts?page=\<close>, the page, \<^verbatim>\<open>&per_page=\<close> and the page
  size, where an omitted page is 1 and an omitted page size is 2, and sends exactly one
  request, for the URL the client makes of that string (the string itself when the client
  leaves it as it is). When the answer is a list of posts in which all six key paths
  resolve, the result is a list of the same length whose element at each position is the
  summary of the post at that position: its \<^verbatim>\<open>id\<close> is the post's \<^verbatim>\<open>id\<close>, its
  \<^verbatim>\<open>title\<close> the post's \<^verbatim>\<open>title.rendered\<close> and its \<^verbatim>\<open>content\<close> the post's
  \<^verbatim>\<open>content.rendered\<close>.
\<close>

theorem fetch_posts_url_and_summaries:
  assumes "WORDPRESS_URL E = Some base"
    and "u = base @ ''/wp-json/wp/v2/posts?page=''
               @ str_int (case page_arg of None \<Rightarrow> 1 | Some p \<Rightarrow> p)
               @ ''&per_page='' @ str_int (case per_page_arg of None \<Rightarrow> 2 | Some n \<Rightarrow> n)"
    and "url_of E u = Prepared w"
  shows "snd (fetch_posts_tool E log page_arg per_page_arg) = log @ [get_request w]
         \<and> (server E log (get_request w) = Answered st body
              \<and> 200 \<le> st \<and> st \<le> 299
              \<and> json_loads E body = Some (JArr posts)
              \<and> (\<forall>x \<in> set posts. \<forall>p \<in> set post_paths. has_path x p)
            \<longrightarrow> (\<exists>out. fst (fetch_posts_tool E log page_arg per_page_arg) = Inr (JArr out)
                   \<and> length out = length posts
                   \<and> (\<forall>i < length posts.
                         format_post_response_data (posts ! i) = Inr (out ! i)
                         \<and> getpath (out ! i) [''id''] = getpath (posts ! i) [''id'']
                         \<and> getpath (out ! i) [''title'']
                             = getpath (posts ! i) [''title'', ''rendered'']
                         \<and> getpath (out ! i) [''content'']
                             = getpath (posts ! i) [''content'', ''rendered''])))"
proof (intro conjI impI)
  have url: "posts_url E (default_arg 1 page_arg) (default_arg 2 per_page_arg) = u"
    using assms(1,2) by (simp add: posts_url_def default_arg_def str_base_def)
  have "snd (fetch_posts_tool E log page_arg per_page_arg) =
          snd (fetch_post_response_data E log
                 (posts_url E (default_arg 1 page_arg) (default_arg 2 per_page_arg)))"
    by (simp add: fetch_posts_tool_def Let_def split: prod.splits sum.splits)
  then show "snd (fetch_posts_tool E log page_arg per_page_arg) = log @ [get_request w]"
    by (simp add: url fetch_log [OF assms(3)])
  assume answer: "server E log (get_request w) = Answered st body
              \<and> 200 \<le> st \<and> st \<le> 299
              \<and> json_loads E body = Some (JArr posts)
              \<and> (\<forall>x \<in> set posts. \<forall>p \<in> set post_paths. has_path x p)"
  then have fetched: "fetch_post_response_data E log u = (Inr (JArr posts), log @ [get_request w])"
    using assms(3) by (simp add: fetch_cases)
  have tool: "fst (fetch_posts_tool E log page_arg per_page_arg) =
                shape_all format_post_response_data (JArr posts)"
    using url fetched by (simp add: fetch_posts_tool_def Let_def)
  have valid: "\<forall>p \<in> set post_paths. has_path x p" if "x \<in> set posts" for x
    using answer that by blast
  have "\<forall>x \<in> set posts. \<not> isl (format_post_response_data x)"
  proof
    fix x assume "x \<in> set posts"
    from format_post_valid [OF valid [OF this]]
    obtain y where "format_post_response_data x = Inr y" by blast
    then show "\<not> isl (format_post_response_data x)" by simp
  qed
  from comprehension_succeeds [OF this]
  obtain out where out: "comprehension format_post_response_data posts = Inr out"
    "length out = length posts"
    "\<forall>i < length posts. format_post_response_data (posts ! i) = Inr (out ! i)"
    by blast
  have fields: "\<forall>i < length posts.
                     format_post_response_data (posts ! i) = Inr (out ! i)
                     \<and> getpath (out ! i) [''id''] = getpath (posts ! i) [''id'']
                     \<and> getpath (out ! i) [''title'']
                         = getpath (posts ! i) [''title'', ''rendered'']
                     \<and> getpath (out ! i) [''content'']
                         = getpath (posts ! i) [''content'', ''rendered'']"
  proof (intro allI impI)
    fix i assume i: "i < length posts"
    then have "posts ! i \<in> set posts" by simp
    from format_post_valid [OF valid [OF this]] out(3) i
    show "format_post_response_data (posts ! i) = Inr (out ! i)
                     \<and> getpath (out ! i) [''id''] = getpath (posts ! i) [''id'']
                     \<and> getpath (out ! i) [''title'']
                         = getpath (posts ! i) [''title'', ''rendered'']
                     \<and> getpath (out ! i) [''content'']
                         = getpath (posts ! i) [''content'', ''rendered'']"
      by auto
  qed
  have "fst (fetch_posts_tool E log page_arg per_page_arg) = Inr (JArr out)"
    using tool out(1) by (simp add: shape_all_def)
  with out(2) fields
  show "\<exists>out. fst (fetch_posts_tool E log page_arg per_page_arg) = Inr (JArr out)
                   \<and> length out = length posts
                   \<and> (\<forall>i < length posts.
                         format_post_response_data (posts ! i) = Inr (out ! i)
                         \<and> getpath (out ! i) [''id''] = getpath (posts ! i) [''id'']
                         \<and> getpath (out ! i) [''title'']
                             = getpath (posts ! i) [''title'', ''rendered'']
                         \<and> getpath (out ! i) [''content'']
                             = getpath (posts ! i) [''content'', ''rendered''])"
    by blast
qed

theorem fetch_posts_url_and_summaries_witness:
  "snd (fetch_posts_tool sample_env [] None None)
     = [get_request ''https://example.org/wp-json/wp/v2/posts?page=1&per_page=2'']
   \<and> (\<exists>out. fst (fetch_posts_tool sample_env [] None None) = Inr (JArr out)
         \<and> length out = 2
         \<and> getpath (out ! 0) [''id''] = Inr (JInt 10)
         \<and> getpath (out ! 0) [''title''] = Inr (JStr ''T0'')
         \<and> getpath (out ! 0) [''content''] = Inr (JStr ''<p>c0</p>'')
         \<and> getpath (out ! 1) [''id''] = Inr (JInt 11)
         \<and> getpath (out ! 1) [''title''] = Inr (JStr ''T1'')
         \<and> getpath (out ! 1) [''content''] = Inr (JStr ''<p>c1</p>''))"
proof -
  let ?u = "''https://example.org/wp-json/wp/v2/posts?page=1&per_page=2''"
  have a: "WORDPRESS_URL sample_env = Some ''https://example.org''"
    by (simp add: sample_env_def)
  have b: "?u = ''https://example.org'' @ ''/wp-json/wp/v2/posts?page=''
               @ str_int (case None of None \<Rightarrow> 1 | Some p \<Rightarrow> p)
               @ ''&per_page='' @ str_int (case None of None \<Rightarrow> 2 | Some n \<Rightarrow> n)"
    by (simp add: str_int_def str_nat.simps)
  have c: "server sample_env [] (get_request ?u) = Answered 200 posts_body"
    by (simp add: sample_env_def sample_server_def get_request_def)
  have d: "json_loads sample_env posts_body = Some (JArr [post10, post11])"
    by (simp add: sample_env_def sample_loads_def)
  have e: "\<forall>x \<in> set [post10, post11]. \<forall>p \<in> set post_paths. has_path x p"
    by (simp add: post10_def post11_def post_paths_def has_path_def)
  from fetch_posts_url_and_summaries
         [OF a b sample_urls(3), of "[]" 200 posts_body "[post10, post11]"] c d e
  obtain out where log: "snd (fetch_posts_tool sample_env [] None None) = [get_request ?u]"
    and out: "fst (fetch_posts_tool sample_env [] None None) = Inr (JArr out)"
      "length out = length [post10, post11]"
    and fields: "\<forall>i < length [post10, post11].
           format_post_response_data ([post10, post11] ! i) = Inr (out ! i)
           \<and> getpath (out ! i) [''id''] = getpath ([post10, post11] ! i) [''id'']
           \<and> getpath (out ! i) [''title''] = getpath ([post10, post11] ! i) [''title'', ''rendered'']
           \<and> getpath (out ! i) [''content'']
               = getpath ([post10, post11] ! i) [''content'', ''rendered'']"
    by auto
  from fields have "getpath (out ! 0) [''id''] = getpath post10 [''id'']"
    "getpath (out ! 0) [''title''] = getpath post10 [''title'', ''rendered'']"
    "getpath (out ! 0) [''content''] = getpath post10 [''content'', ''rendered'']"
    "getpath (out ! 1) [''id''] = getpath post11 [''id'']"
    "getpath (out ! 1) [''title''] = getpath post11 [''title'', ''rendered'']"
    "getpath (out ! 1) [''content''] = getpath post11 [''content'', ''rendered'']"
    by (simp_all add: nth_Cons')
  then show ?thesis
    using log out by (simp add: post10_def post11_def)
qed

lemma category_row_value:
  assumes "set (map fst kvs) = set category_keys"
  shows "\<exists>a b c d. map_of kvs ''id'' = Some a \<and> map_of kvs ''name'' = Some b
           \<and> map_of kvs ''count'' = Some c \<and> map_of kvs ''link'' = Some d
           \<and> category_row (JObj kvs) =
               Inr (JObj [(''id'', a), (''name'', b), (''count'', c), (''link'', d)])"
proof -
  have "''id'' \<in> fst ` set kvs" "''name'' \<in> fst ` set kvs" "''count'' \<in> fst ` set kvs"
    "''link'' \<in> fst ` set kvs"
    using assms by (simp_all add: category_keys_def)
  then obtain a b c d where "map_of kvs ''id'' = Some a" "map_of kvs ''name'' = Some b"
    "map_of kvs ''count'' = Some c" "map_of kvs ''link'' = Some d"
    by (meson map_of_eq_None_iff not_Some_eq)
  then show ?thesis
    by (simp add: category_row_def)
qed

lemma category_row_dict_eq:
  assumes "set (map fst kvs) = set category_keys"
  shows "\<exists>y. category_row (JObj kvs) = Inr y \<and> dict_eq y (JObj kvs)"
proof -
  from category_row_value [OF assms]
  obtain a b c d where v: "map_of kvs ''id'' = Some a" "map_of kvs ''name'' = Some b"
    "map_of kvs ''count'' = Some c" "map_of kvs ''link'' = Some d"
    "category_row (JObj kvs) = Inr (JObj [(''id'', a), (''name'', b), (''count'', c), (''link'', d)])"
    by blast
  have "dict_eq (JObj [(''id'', a), (''name'', b), (''count'', c), (''link'', d)]) (JObj kvs)"
    using assms v(1-4) by (simp add: dict_eq_def category_keys_def)
  then show ?thesis
    using v(5) by simp
qed

lemma category_row_same:
  assumes "map fst kvs = category_keys"
  shows "category_row (JObj kvs) = Inr (JObj kvs)"
proof -
  from assms obtain a b c d where
    "kvs = [(''id'', a), (''name'', b), (''count'', c), (''link'', d)]"
    by (auto simp add: category_keys_def map_eq_Cons_conv)
  then show ?thesis
    by (simp add: category_row_def)
qed

text \<open>
  Claim C7. When every element of the category list is a dict with exactly the keys
  \<^verbatim>\<open>id\<close>, \<^verbatim>\<open>name\<close>, \<^verbatim>\<open>count\<close> and \<^verbatim>\<open>link\<close>, \<^verbatim>\<open>fetch_categories\<close> returns a list
  of the same length whose elements equal the given ones as dicts (the same keys with the
  same values); when the keys arrive in the order \<^verbatim>\<open>id\<close>, \<^verbatim>\<open>name\<close>, \<^verbatim>\<open>count\<close>,
  \<^verbatim>\<open>link\<close>, the returned list is the given list itself.
\<close>
theorem fetch_categories_identity:
  assumes "url_of E (categories_url E) = Prepared w"
    and "server E log (get_request w) = Answered st body"
    and "200 \<le> st" and "st \<le> 299"
    and "json_loads E body = Some (JArr cats)"
    and "\<forall>c \<in> set cats. \<exists>kvs. c = JObj kvs \<and> set (map fst kvs) = set category_keys"
  shows "\<exists>out. fst (fetch_categories_tool E log) = Inr (JArr out)
           \<and> list_all2 dict_eq out cats
           \<and> ((\<forall>c \<in> set cats. \<exists>kvs. c = JObj kvs \<and> map fst kvs = category_keys)
                \<longrightarrow> out = cats)"
proof -
  have fetched: "fetch_post_response_data E log (categories_url E) =
                   (Inr (JArr cats), log @ [get_request w])"
    using assms(1-5) by (simp add: fetch_cases)
  have tool: "fst (fetch_categories_tool E log) = shape_all category_row (JArr cats)"
    by (simp add: fetch_categories_tool_def Let_def fetched)
  have rows: "\<exists>y. category_row c = Inr y \<and> dict_eq y c" if "c \<in> set cats" for c
  proof -
    from assms(6) that obtain kvs where "c = JObj kvs" "set (map fst kvs) = set category_keys"
      by blast
    then show ?thesis
      using category_row_dict_eq [of kvs] by simp
  qed
  have "\<forall>c \<in> set cats. \<not> isl (category_row c)"
  proof
    fix c assume "c \<in> set cats"
    from rows [OF this] obtain y where "category_row c = Inr y" by blast
    then show "\<not> isl (category_row c)" by simp
  qed
  from comprehension_succeeds [OF this]
  obtain out where out: "comprehension category_row cats = Inr out"
    "length out = length cats"
    "\<forall>i < length cats. category_row (cats ! i) = Inr (out ! i)"
    by blast
  have eq: "list_all2 dict_eq out cats"
    unfolding list_all2_conv_all_nth
  proof (intro conjI allI impI)
    show "length out = length cats" by (rule out(2))
  next
    fix i assume "i < length out"
    then have i: "i < length cats" using out(2) by simp
    then have "cats ! i \<in> set cats" by simp
    from rows [OF this] obtain y where "category_row (cats ! i) = Inr y" "dict_eq y (cats ! i)"
      by blast
    then show "dict_eq (out ! i) (cats ! i)"
      using out(3) i by simp
  qed
  have same: "out = cats"
    if ordered: "\<forall>c \<in> set cats. \<exists>kvs. c = JObj kvs \<and> map fst kvs = category_keys"
  proof (rule nth_equalityI)
    show "length out = length cats" by (rule out(2))
  next
    fix i assume "i < length out"
    then have i: "i < length cats" using out(2) by simp
    then have "cats ! i \<in> set cats" by simp
    with ordered obtain kvs where "cats ! i = JObj kvs" "map fst kvs = category_keys"
      by blast
    then have "category_row (cats ! i) = Inr (cats ! i)"
      using category_row_same by simp
    then show "out ! i = cats ! i"
      using out(3) i by simp
  qed
  have "fst (fetch_categories_tool E log) = Inr (JArr out)"
    using tool out(1) by (simp add: shape_all_def)
  then show ?thesis
    using eq same by blast
qed



theorem fetch_categories_identity_witness:
  "fst (fetch_categories_tool sample_env []) =
     Inr (JArr [JObj [(''id'', JInt 1), (''name'', JStr ''News''), (''count'', JInt 5),
                      (''link'', JStr ''https://x/cat/news'')]])"
proof -
  have u: "url_of sample_env (categories_url sample_env)
             = Prepared ''https://example.org/wp-json/wp/v2/categories''"
    using sample_urls(4) by (simp add: categories_url_def str_base_def sample_env_def)
  have a: "server sample_env [] (get_request ''https://example.org/wp-json/wp/v2/categories'')
             = Answered 200 categories_body"
    by (simp add: sample_env_def sample_server_def get_request_def)
  have b: "json_loads sample_env categories_body = Some (JArr [news])"
    by (simp add: sample_env_def sample_loads_def posts_body_def categories_body_def)
  have c: "\<forall>c \<in> set [news]. \<exists>kvs. c = JObj kvs \<and> set (map fst kvs) = set category_keys"
    by (simp add: news_def category_keys_def)
  have d: "\<forall>c \<in> set [news]. \<exists>kvs. c = JObj kvs \<and> map fst kvs = category_keys"
    by (simp add: news_def category_keys_def)
  from fetch_categories_identity [OF u a _ _ b c] d
  have "fst (fetch_categories_tool sample_env []) = Inr (JArr [news])"
    by auto
  then show ?thesis
    by (simp add: news_def)
qed

lemma category_tool_log:
  "snd (fetch_posts_by_category_tool E log category page_arg) =
     snd (fetch_post_response_data E log
            (posts_by_category_url E category (default_arg 1 page_arg)))"
  by (simp add: fetch_posts_by_category_tool_def Let_def split: prod.splits sum.splits)

lemma category_tool_refused:
  "url_of E (posts_by_category_url E category (default_arg 1 page_arg)) = Refused m \<Longrightarrow>
     fetch_posts_by_category_tool E log category page_arg = (Inl (InvalidURL m), log)"
  "url_of E (posts_by_category_url E category (default_arg 1 page_arg)) = Unsendable m \<Longrightarrow>
     fetch_posts_by_category_tool E log category page_arg = (Inl (RequestError m), log)"
  by (simp_all add: fetch_posts_by_category_tool_def Let_def fetch_refused)

text \<open>
  Claim C10, as stated, says that the requested URL is the concatenation for every
  category. On the sample site the category \<^verbatim>\<open>a b\<close> is requested as \<^verbatim>\<open>a%20b\<close>, since
  the client encodes the space, and for a category that is a single tab the client raises
  \<^verbatim>\<open>InvalidURL\<close> and no URL is requested at all.
\<close>

theorem category_url_encoded_counterexample:
  "snd (fetch_posts_by_category_tool sample_env [] ''a b'' None)
     = [get_request ''https://example.org/wp-json/wp/v2/posts?categories=a%20b&page=1'']
   \<and> ''https://example.org/wp-json/wp/v2/posts?categories=a%20b&page=1''
       \<noteq> ''https://example.org'' @ ''/wp-json/wp/v2/posts?categories='' @ ''a b''
           @ ''&page='' @ str_int 1
   \<and> fetch_posts_by_category_tool sample_env [] [CHR 0x09] None
       = (Inl (InvalidURL ''Invalid non-printable ASCII character in URL''), [])"
proof -
  have "url_of sample_env (posts_by_category_url sample_env ''a b'' (default_arg 1 None))
          = Prepared ''https://example.org/wp-json/wp/v2/posts?categories=a%20b&page=1''"
    by (simp add: posts_by_category_url_def default_arg_def str_base_def sample_env_def
          sample_url_of_def str_int_def str_nat.simps)
  then have sent: "snd (fetch_posts_by_category_tool sample_env [] ''a b'' None)
     = [get_request ''https://example.org/wp-json/wp/v2/posts?categories=a%20b&page=1'']"
    by (simp add: category_tool_log fetch_log)
  have "url_of sample_env (posts_by_category_url sample_env [CHR 0x09] (default_arg 1 None))
          = Refused ''Invalid non-printable ASCII character in URL''"
    by (simp add: posts_by_category_url_def default_arg_def str_base_def sample_env_def
          sample_url_of_def)
  then have refused: "fetch_posts_by_category_tool sample_env [] [CHR 0x09] None
       = (Inl (InvalidURL ''Invalid non-printable ASCII character in URL''), [])"
    by (rule category_tool_refused)
  show ?thesis
    using sent refused by (simp add: str_int_def str_nat.simps)
qed

text \<open>
  Claim C10, amended. \<^verbatim>\<open>fetch_posts_by_category\<close> builds its URL by plain
  interpolation and escapes nothing itself: the string it hands the client is the base URL
  followed by \<^verbatim>\<open>/wp-json/wp/v2/posts?categories=\<close>, the category text exactly as given,
  \<^verbatim>\<open>&page=\<close> and the page in decimal. What is requested is what the client makes of
  that string: when the client refuses the string or cannot send it, the tool raises the
  client's exception and sends nothing; otherwise exactly one request is sent, for the
  client's URL, which is the concatenation itself whenever the client leaves the string as
  it is.
\<close>

theorem category_url_handed_to_client:
  assumes "WORDPRESS_URL E = Some base"
    and "u = base @ ''/wp-json/wp/v2/posts?categories='' @ category
               @ ''&page='' @ str_int (case page_arg of None \<Rightarrow> 1 | Some p \<Rightarrow> p)"
  shows "(\<forall>m. url_of E u = Refused m \<longrightarrow>
            fetch_posts_by_category_tool E log category page_arg = (Inl (InvalidURL m), log))
       \<and> (\<forall>m. url_of E u = Unsendable m \<longrightarrow>
            fetch_posts_by_category_tool E log category page_arg = (Inl (RequestError m), log))
       \<and> (\<forall>w. url_of E u = Prepared w \<longrightarrow>
            snd (fetch_posts_by_category_tool E log category page_arg) = log @ [get_request w])
       \<and> (url_of E u = Prepared u \<longrightarrow>
            snd (fetch_posts_by_category_tool E log category page_arg) = log @ [get_request u])"
proof -
  have url: "posts_by_category_url E category (default_arg 1 page_arg) = u"
    using assms by (simp add: posts_by_category_url_def default_arg_def str_base_def)
  have sent: "snd (fetch_posts_by_category_tool E log category page_arg) = log @ [get_request w]"
    if "url_of E u = Prepared w" for w
    using that by (simp add: category_tool_log url fetch_log)
  have refused: "fetch_posts_by_category_tool E log category page_arg = (Inl (InvalidURL m), log)"
    if "url_of E u = Refused m" for m
    using that category_tool_refused(1) [of E category page_arg m log] by (simp add: url)
  have unsendable:
    "fetch_posts_by_category_tool E log category page_arg = (Inl (RequestError m), log)"
    if "url_of E u = Unsendable m" for m
    using that category_tool_refused(2) [of E category page_arg m log] by (simp add: url)
  show ?thesis
    using sent refused unsendable by blast
qed

theorem category_url_handed_to_client_witness:
  "snd (fetch_posts_by_category_tool sample_env [] ''7&per_page=100'' (Some 3)) =
     [get_request ''https://example.org/wp-json/wp/v2/posts?categories=7&per_page=100&page=3'']
   \<and> snd (fetch_posts_by_category_tool sample_env [] ''a b'' (Some 3)) =
     [get_request ''https://example.org/wp-json/wp/v2/posts?categories=a%20b&page=3'']
   \<and> fetch_posts_by_category_tool sample_env [] [CHR 0x09] (Some 3) =
     (Inl (InvalidURL ''Invalid non-printable ASCII character in URL''), [])
   \<and> fetch_posts_by_category_tool bare_env [] ''7'' (Some 3) =
     (Inl (RequestError ''Request URL is missing a protocol''), [])"
proof -
  have a: "WORDPRESS_URL sample_env = Some ''https://example.org''"
    by (simp add: sample_env_def)
  have u1: "''https://example.org/wp-json/wp/v2/posts?categories=7&per_page=100&page=3'' =
              ''https://example.org'' @ ''/wp-json/wp/v2/posts?categories='' @ ''7&per_page=100''
                @ ''&page='' @ str_int (case Some 3 of None \<Rightarrow> 1 | Some p \<Rightarrow> p)"
    by (simp add: str_int_def str_nat.simps)
  have c1: "url_of sample_env
              ''https://example.org/wp-json/wp/v2/posts?categories=7&per_page=100&page=3''
            = Prepared ''https://example.org/wp-json/wp/v2/posts?categories=7&per_page=100&page=3''"
    by (simp add: sample_env_def sample_url_of_def)
  have u2: "''https://example.org/wp-json/wp/v2/posts?categories=a b&page=3'' =
              ''https://example.org'' @ ''/wp-json/wp/v2/posts?categories='' @ ''a b''
                @ ''&page='' @ str_int (case Some 3 of None \<Rightarrow> 1 | Some p \<Rightarrow> p)"
    by (simp add: str_int_def str_nat.simps)
  have c2: "url_of sample_env ''https://example.org/wp-json/wp/v2/posts?categories=a b&page=3''
            = Prepared ''https://example.org/wp-json/wp/v2/posts?categories=a%20b&page=3''"
    by (simp add: sample_env_def sample_url_of_def)
  have u3: "''https://example.org/wp-json/wp/v2/posts?categories='' @ [CHR 0x09] @ ''&page=3'' =
              ''https://example.org'' @ ''/wp-json/wp/v2/posts?categories='' @ [CHR 0x09]
                @ ''&page='' @ str_int (case Some 3 of None \<Rightarrow> 1 | Some p \<Rightarrow> p)"
    by (simp add: str_int_def str_nat.simps)
  have c3: "url_of sample_env
              (''https://example.org/wp-json/wp/v2/posts?categories='' @ [CHR 0x09] @ ''&page=3'')
            = Refused ''Invalid non-printable ASCII character in URL''"
    by (simp add: sample_env_def sample_url_of_def)
  have b: "WORDPRESS_URL bare_env = Some ''example.org''"
    by (simp add: bare_env_def)
  have u4: "''example.org/wp-json/wp/v2/posts?categories=7&page=3'' =
              ''example.org'' @ ''/wp-json/wp/v2/posts?categories='' @ ''7''
                @ ''&page='' @ str_int (case Some 3 of None \<Rightarrow> 1 | Some p \<Rightarrow> p)"
    by (simp add: str_int_def str_nat.simps)
  have c4: "url_of bare_env ''example.org/wp-json/wp/v2/posts?categories=7&page=3''
            = Unsendable ''Request URL is missing a protocol''"
    by (simp add: bare_env_def sample_env_def sample_url_of_def)
  show ?thesis
    using category_url_handed_to_client [OF a u1, of "[]"] c1
      category_url_handed_to_client [OF a u2, of "[]"] c2
      category_url_handed_to_client [OF a u3, of "[]"] c3
      category_url_handed_to_client [OF b u4, of "[]"] c4
    by simp
qed

section \<open>The store\<close>

lemma those_map_mono:
  "those (map f xs) = Some ys \<Longrightarrow> (\<And>x y. x \<in> set xs \<Longrightarrow> f x = Some y \<Longrightarrow> g x = Some y) \<Longrightarrow>
     those (map g xs) = Some ys"
  by (induction xs arbitrary: ys) (auto split: option.splits)

lemma json_of_Suc: "json_of n h a = Some v \<Longrightarrow> json_of (Suc n) h a = Some v"
proof (induction n arbitrary: a v)
  case 0
  then show ?case by simp
next
  case (Suc n)
  show ?case
  proof (cases "cells h a")
    case (OList xs)
    with Suc.prems obtain ys where ys: "those (map (json_of n h) xs) = Some ys" "v = JArr ys"
      by auto
    from those_map_mono [OF ys(1), of "json_of (Suc n) h"] Suc.IH
    have "those (map (json_of (Suc n) h) xs) = Some ys" by blast
    with OList ys(2) show ?thesis by simp
  next
    case (ODict kvs)
    with Suc.prems obtain ys where
      ys: "those (map (\<lambda>kv. map_option (Pair (fst kv)) (json_of n h (snd kv))) kvs) = Some ys"
        "v = JObj ys"
      by auto
    have "those (map (\<lambda>kv. map_option (Pair (fst kv)) (json_of (Suc n) h (snd kv))) kvs) = Some ys"
      using those_map_mono [OF ys(1),
          of "\<lambda>kv. map_option (Pair (fst kv)) (json_of (Suc n) h (snd kv))"] Suc.IH
      by (auto simp del: json_of.simps)
    with ODict ys(2) show ?thesis by simp
  qed (use Suc.prems in auto)
qed

lemma those_pairs_lookup:
  "those (map (\<lambda>kv. map_option (Pair (fst kv)) (f (snd kv))) kvs) = Some ys \<Longrightarrow>
     map_of ys k = (case map_of kvs k of None \<Rightarrow> None | Some b \<Rightarrow> f b)
     \<and> (\<forall>b. map_of kvs k = Some b \<longrightarrow> f b \<noteq> None)"
  by (induction kvs arbitrary: ys) (auto split: option.splits)

lemma getitem_ref_json:
  assumes "json_of (Suc n) h a = Some v"
  shows "(\<forall>e. getitem_ref h a k = Inl e \<longrightarrow> getitem v k = Inl e)
       \<and> (\<forall>b. getitem_ref h a k = Inr b \<longrightarrow>
             b \<in> refs (cells h a) \<and> (\<exists>w. json_of n h b = Some w \<and> getitem v k = Inr w))"
proof (cases "cells h a")
  case (ODict kvs)
  with assms obtain ys where
    ys: "those (map (\<lambda>kv. map_option (Pair (fst kv)) (json_of n h (snd kv))) kvs) = Some ys"
      "v = JObj ys"
    by auto
  from those_pairs_lookup [OF ys(1), of k]
  have l: "map_of ys k = (case map_of kvs k of None \<Rightarrow> None | Some b \<Rightarrow> json_of n h b)"
    "\<forall>b. map_of kvs k = Some b \<longrightarrow> json_of n h b \<noteq> None"
    by auto
  show ?thesis
    using ODict ys(2) l
    by (auto simp add: getitem_ref_def split: option.splits dest: map_of_SomeD
          intro: rev_image_eqI)
qed (use assms in \<open>auto simp add: getitem_ref_def\<close>)

lemma json_of_new_dict:
  assumes "closed h"
  shows "a < next_free h \<Longrightarrow> json_of n (snd (new_dict h kvs)) a = json_of n h a"
proof (induction n arbitrary: a)
  case 0
  then show ?case by simp
next
  case (Suc n)
  have same: "cells (snd (new_dict h kvs)) a = cells h a"
    using Suc.prems by (simp add: new_dict_def)
  have kids: "\<forall>b \<in> refs (cells h a). json_of n (snd (new_dict h kvs)) b = json_of n h b"
    using assms Suc.prems Suc.IH by (simp add: closed_def)
  show ?case
  proof (cases "cells h a")
    case (OList xs)
    with kids have eq: "map (json_of n (snd (new_dict h kvs))) xs = map (json_of n h) xs"
      by simp
    show ?thesis
      using OList same by (simp add: eq)
  next
    case (ODict ps)
    with kids have eq:
      "map (\<lambda>kv. map_option (Pair (fst kv)) (json_of n (snd (new_dict h kvs)) (snd kv))) ps =
       map (\<lambda>kv. map_option (Pair (fst kv)) (json_of n h (snd kv))) ps"
      by simp
    show ?thesis
      using ODict same by (simp add: eq)
  qed (use same in auto)
qed

lemma lookup_agrees:
  assumes "closed h" and "a < next_free h" and "json_of (Suc n) h a = Some v"
  shows "(\<exists>e. getitem_ref h a k = Inl e \<and> getitem v k = Inl e)
       \<or> (\<exists>b w. getitem_ref h a k = Inr b \<and> b < next_free h
              \<and> json_of n h b = Some w \<and> getitem v k = Inr w)"
proof (cases "getitem_ref h a k")
  case (Inl e)
  then show ?thesis
    using getitem_ref_json [OF assms(3), of k] by simp
next
  case (Inr b)
  with getitem_ref_json [OF assms(3), of k]
  obtain w where w: "b \<in> refs (cells h a)" "json_of n h b = Some w" "getitem v k = Inr w"
    by auto
  from w(1) assms(1,2) have "b < next_free h"
    by (simp add: closed_def)
  with Inr w show ?thesis
    by simp
qed

lemma lookup_agrees_nested:
  assumes "closed h" and "a < next_free h" and "json_of n h a = Some v"
  shows "(\<exists>e. getitem_ref h a k = Inl e \<and> getitem v k = Inl e)
       \<or> (\<exists>b w. getitem_ref h a k = Inr b \<and> b < next_free h
              \<and> json_of n h b = Some w \<and> getitem v k = Inr w)"
proof -
  from assms(3) obtain m where n: "n = Suc m"
    by (cases n) auto
  from lookup_agrees [OF assms(1,2) assms(3) [unfolded n], of k] json_of_Suc [of m h]
  show ?thesis
    unfolding n by (auto simp del: json_of.simps)
qed

text \<open>
  The shaping over the store is the shaping of values: on a closed store, for an argument
  that stands for the value \<open>v\<close>, it raises what \<^const>\<open>format_post_response_data\<close> raises
  on \<open>v\<close> and leaves the store alone, or it returns an address that stands for the value
  \<^const>\<open>format_post_response_data\<close> returns on \<open>v\<close>.
\<close>

lemma store_model_agrees:
  assumes "closed h" and "response < next_free h"
    and "json_of n h response = Some v"
  shows "case format_post_response_data_ref h response of
           (Inl e, h') \<Rightarrow> h' = h \<and> format_post_response_data v = Inl e
         | (Inr r, h') \<Rightarrow> map_option Inr (json_of n h' r) = Some (format_post_response_data v)"
proof -
  from assms(3) obtain m where n: "n = Suc m"
    by (cases n) auto
  note top = lookup_agrees [OF assms(1,2) assms(3) [unfolded n]]
  note defs = format_post_response_data_ref_def format_post_response_data_def
  consider (fail) e where "format_post_response_data_ref h response = (Inl e, h)"
      "format_post_response_data v = Inl e"
    | (ok) x1 x2 x3 x4 x5 x6 w1 w2 w3 w4 w5 w6 where
      "format_post_response_data_ref h response =
         (Inr (next_free h),
          snd (new_dict h [(''id'', x1), (''date'', x2), (''link'', x3), (''title'', x4),
                           (''content'', x5), (''featured_media'', x6)]))"
      "format_post_response_data v =
         Inr (JObj [(''id'', w1), (''date'', w2), (''link'', w3), (''title'', w4),
                    (''content'', w5), (''featured_media'', w6)])"
      "x1 < next_free h" "json_of m h x1 = Some w1"
      "x2 < next_free h" "json_of m h x2 = Some w2"
      "x3 < next_free h" "json_of m h x3 = Some w3"
      "x4 < next_free h" "json_of m h x4 = Some w4"
      "x5 < next_free h" "json_of m h x5 = Some w5"
      "x6 < next_free h" "json_of m h x6 = Some w6"
  proof -
    from top [of "''id''"] show ?thesis
    proof (elim disjE exE conjE)
      fix e assume "getitem_ref h response ''id'' = Inl e" "getitem v ''id'' = Inl e"
      then show ?thesis by (intro fail [of e]) (simp_all add: defs)
    next
      fix x1 w1 assume a1: "getitem_ref h response ''id'' = Inr x1" "x1 < next_free h"
        "json_of m h x1 = Some w1" "getitem v ''id'' = Inr w1"
      from top [of "''date''"] show ?thesis
      proof (elim disjE exE conjE)
        fix e assume "getitem_ref h response ''date'' = Inl e" "getitem v ''date'' = Inl e"
        with a1 show ?thesis by (intro fail [of e]) (simp_all add: defs)
      next
        fix x2 w2 assume a2: "getitem_ref h response ''date'' = Inr x2" "x2 < next_free h"
          "json_of m h x2 = Some w2" "getitem v ''date'' = Inr w2"
        from top [of "''link''"] show ?thesis
        proof (elim disjE exE conjE)
          fix e assume "getitem_ref h response ''link'' = Inl e" "getitem v ''link'' = Inl e"
          with a1 a2 show ?thesis by (intro fail [of e]) (simp_all add: defs)
        next
          fix x3 w3 assume a3: "getitem_ref h response ''link'' = Inr x3" "x3 < next_free h"
            "json_of m h x3 = Some w3" "getitem v ''link'' = Inr w3"
          from top [of "''title''"] show ?thesis
          proof (elim disjE exE conjE)
            fix e assume "getitem_ref h response ''title'' = Inl e" "getitem v ''title'' = Inl e"
            with a1 a2 a3 show ?thesis by (intro fail [of e]) (simp_all add: defs)
          next
            fix t tv assume at: "getitem_ref h response ''title'' = Inr t" "t < next_free h"
              "json_of m h t = Some tv" "getitem v ''title'' = Inr tv"
            from lookup_agrees_nested [OF assms(1) at(2,3), of "''rendered''"] show ?thesis
            proof (elim disjE exE conjE)
              fix e assume "getitem_ref h t ''rendered'' = Inl e" "getitem tv ''rendered'' = Inl e"
              with a1 a2 a3 at show ?thesis by (intro fail [of e]) (simp_all add: defs)
            next
              fix x4 w4 assume a4: "getitem_ref h t ''rendered'' = Inr x4" "x4 < next_free h"
                "json_of m h x4 = Some w4" "getitem tv ''rendered'' = Inr w4"
              from top [of "''content''"] show ?thesis
              proof (elim disjE exE conjE)
                fix e assume "getitem_ref h response ''content'' = Inl e"
                  "getitem v ''content'' = Inl e"
                with a1 a2 a3 at a4 show ?thesis by (intro fail [of e]) (simp_all add: defs)
              next
                fix c cv assume ac: "getitem_ref h response ''content'' = Inr c"
                  "c < next_free h" "json_of m h c = Some cv" "getitem v ''content'' = Inr cv"
                from lookup_agrees_nested [OF assms(1) ac(2,3), of "''rendered''"]
                show ?thesis
                proof (elim disjE exE conjE)
                  fix e assume "getitem_ref h c ''rendered'' = Inl e"
                    "getitem cv ''rendered'' = Inl e"
                  with a1 a2 a3 at a4 ac show ?thesis
                    by (intro fail [of e]) (simp_all add: defs)
                next
                  fix x5 w5 assume a5: "getitem_ref h c ''rendered'' = Inr x5"
                    "x5 < next_free h" "json_of m h x5 = Some w5"
                    "getitem cv ''rendered'' = Inr w5"
                  from top [of "''featured_media''"] show ?thesis
                  proof (elim disjE exE conjE)
                    fix e assume "getitem_ref h response ''featured_media'' = Inl e"
                      "getitem v ''featured_media'' = Inl e"
                    with a1 a2 a3 at a4 ac a5 show ?thesis
                      by (intro fail [of e]) (simp_all add: defs)
                  next
                    fix x6 w6 assume a6: "getitem_ref h response ''featured_media'' = Inr x6"
                      "x6 < next_free h" "json_of m h x6 = Some w6"
                      "getitem v ''featured_media'' = Inr w6"
                    show ?thesis
                      using a1 a2 a3 at a4 ac a5 a6
                      by (intro ok [of x1 x2 x3 x4 x5 x6 w1 w2 w3 w4 w5 w6])
                        (simp_all add: defs new_dict_def)
                  qed
                qed
              qed
            qed
          qed
        qed
      qed
    qed
  qed
  then show ?thesis
  proof cases
    case fail
    then show ?thesis by simp
  next
    case ok
    let ?kvs = "[(''id'', x1), (''date'', x2), (''link'', x3), (''title'', x4),
                 (''content'', x5), (''featured_media'', x6)]"
    let ?h' = "snd (new_dict h ?kvs)"
    have frame: "json_of m ?h' x = json_of m h x" if "x < next_free h" for x
      using json_of_new_dict [OF assms(1) that] .
    have cell: "cells ?h' (next_free h) = ODict ?kvs"
      by (simp add: new_dict_def)
    have "json_of (Suc m) ?h' (next_free h) =
            Some (JObj [(''id'', w1), (''date'', w2), (''link'', w3), (''title'', w4),
                        (''content'', w5), (''featured_media'', w6)])"
      using ok(3-14) by (simp add: cell frame)
    with ok(1,2) show ?thesis
      by (simp add: n)
  qed
qed

lemma format_post_ref_cases:
  "(\<exists>e. format_post_response_data_ref h response = (Inl e, h))
   \<or> (\<exists>kvs. format_post_response_data_ref h response =
               (Inr (fst (new_dict h kvs)), snd (new_dict h kvs)))"
  unfolding format_post_response_data_ref_def
  by (simp split: sum.split prod.split) (metis fst_conv snd_conv)

text \<open>
  Claim C8. \<^verbatim>\<open>format_post_response_data\<close> changes no object that existed before the
  call: every cell of the store other than the next free one holds what it held, so the
  argument and everything it refers to are as they were. When it raises, the store is
  untouched; when it returns, the result is a dict at the address that was free before
  the call, that is, a new object.
\<close>

theorem format_post_leaves_store:
  "case format_post_response_data_ref h response of
     (r, h') \<Rightarrow>
       (\<forall>a. a \<noteq> next_free h \<longrightarrow> cells h' a = cells h a)
       \<and> (\<forall>e. r = Inl e \<longrightarrow> h' = h)
       \<and> (\<forall>a. r = Inr a \<longrightarrow>
             a = next_free h \<and> next_free h' = Suc a \<and> (\<exists>kvs. cells h' a = ODict kvs))"
proof -
  consider e where "format_post_response_data_ref h response = (Inl e, h)"
    | kvs where "format_post_response_data_ref h response =
               (Inr (fst (new_dict h kvs)), snd (new_dict h kvs))"
    using format_post_ref_cases [of h response] by blast
  then show ?thesis
  proof cases
    case 1
    then show ?thesis by simp
  next
    case 2
    then show ?thesis by (simp add: new_dict_def)
  qed
qed

theorem format_post_leaves_store_witness:
  "fst (format_post_response_data_ref sample_heap 8) = Inr 9
   \<and> cells (snd (format_post_response_data_ref sample_heap 8)) 8 = cells sample_heap 8
   \<and> cells (snd (format_post_response_data_ref sample_heap 8)) 4 = cells sample_heap 4
   \<and> next_free (snd (format_post_response_data_ref sample_heap 8)) = 10
   \<and> fst (format_post_response_data_ref sample_heap 4) = Inl (KeyError ''id'')
   \<and> snd (format_post_response_data_ref sample_heap 4) = sample_heap"
proof -
  have r: "fst (format_post_response_data_ref sample_heap 8) = Inr 9"
    by (simp add: format_post_response_data_ref_def getitem_ref_def new_dict_def
          sample_heap_def sample_objects_def)
  have n: "next_free sample_heap = 9"
    by (simp add: sample_heap_def sample_objects_def)
  obtain res h' where eq: "format_post_response_data_ref sample_heap 8 = (res, h')"
    by (cases "format_post_response_data_ref sample_heap 8")
  with r have res: "res = Inr 9"
    by simp
  from format_post_leaves_store [of sample_heap 8] eq
  have "(\<forall>a. a \<noteq> next_free sample_heap \<longrightarrow> cells h' a = cells sample_heap a)
        \<and> (\<forall>a. res = Inr a \<longrightarrow> a = next_free sample_heap \<and> next_free h' = Suc a
              \<and> (\<exists>kvs. cells h' a = ODict kvs))"
    by simp
  with res n have ok: "cells h' 8 = cells sample_heap 8" "cells h' 4 = cells sample_heap 4"
    "next_free h' = 10"
    by simp_all
  have f: "fst (format_post_response_data_ref sample_heap 4) = Inl (KeyError ''id'')"
    by (simp add: format_post_response_data_ref_def getitem_ref_def
          sample_heap_def sample_objects_def)
  obtain res2 h2 where eq2: "format_post_response_data_ref sample_heap 4 = (res2, h2)"
    by (cases "format_post_response_data_ref sample_heap 4")
  with f have res2: "res2 = Inl (KeyError ''id'')"
    by simp
  from format_post_leaves_store [of sample_heap 4] eq2
  have "\<forall>e. res2 = Inl e \<longrightarrow> h2 = sample_heap"
    by simp
  with res2 have "h2 = sample_heap"
    by simp
  with ok eq eq2 r f show ?thesis
    by simp
qed

end
